theory Spec2Isabelle
  imports Complex_Main "HOL-Library.Multiset"
begin

section \<open>Numbers read from strings\<close>

text \<open>
  Binance sends prices and quantities as decimal strings (\<^verbatim>\<open>"0.00123000"\<close>).
  The order book service reads a quantity with unary plus (\<^verbatim>\<open>+qty\<close>, for the zero
  test) and a price with \<^verbatim>\<open>parseFloat(price)\<close> (for sorting). The model reads decimal
  literals: an optional sign, digits, an optional fraction. Unary plus wants the whole
  string to be such a literal (the empty string is 0); \<^verbatim>\<open>parseFloat\<close> reads the
  longest prefix that is one. \<open>None\<close> is \<^verbatim>\<open>NaN\<close>. Numbers are exact rationals: the
  rounding of IEEE doubles is not modelled, nor are the other spellings JavaScript
  accepts (exponents, \<^verbatim>\<open>Infinity\<close>, hexadecimal, surrounding white space), which the
  exchange does not send.
\<close>

definition digitVal :: "char \<Rightarrow> nat option" where
  "digitVal c = map_of
     [(CHR ''0'', 0), (CHR ''1'', 1), (CHR ''2'', 2), (CHR ''3'', 3), (CHR ''4'', 4),
      (CHR ''5'', 5), (CHR ''6'', 6), (CHR ''7'', 7), (CHR ''8'', 8), (CHR ''9'', 9)] c"

fun digitsVal :: "nat \<Rightarrow> string \<Rightarrow> nat option" where
  "digitsVal acc [] = Some acc"
| "digitsVal acc (c # cs) =
     (case digitVal c of None \<Rightarrow> None | Some d \<Rightarrow> digitsVal (10 * acc + d) cs)"

text \<open>Digits, then optionally a point and digits, with a digit somewhere.\<close>

definition unsignedDecimal :: "string \<Rightarrow> rat option" where
  "unsignedDecimal s =
     (let ip = takeWhile (\<lambda>c. c \<noteq> CHR ''.'') s;
          fp = drop 1 (dropWhile (\<lambda>c. c \<noteq> CHR ''.'') s)
      in if ip = [] \<and> fp = [] then None
         else case (digitsVal 0 ip, digitsVal 0 fp) of
                (Some i, Some f) \<Rightarrow> Some (of_nat i + of_nat f / 10 ^ length fp)
              | _ \<Rightarrow> None)"

definition signed :: "(string \<Rightarrow> rat option) \<Rightarrow> string \<Rightarrow> rat option" where
  "signed f s =
     (case s of
        c # cs \<Rightarrow>
          if c = CHR ''-'' then map_option uminus (f cs)
          else if c = CHR ''+'' then f cs
          else f s
      | [] \<Rightarrow> None)"

text \<open>Unary plus, \<^verbatim>\<open>+s\<close>.\<close>

definition toNumber :: "string \<Rightarrow> rat option" where
  "toNumber s = (if s = [] then Some 0 else signed unsignedDecimal s)"

text \<open>The longest prefix of the shape digits, point, digits.\<close>

definition decimalPrefix :: "string \<Rightarrow> string" where
  "decimalPrefix s =
     (let ip = takeWhile (\<lambda>c. digitVal c \<noteq> None) s;
          rest = dropWhile (\<lambda>c. digitVal c \<noteq> None) s
      in case rest of
           c # cs \<Rightarrow> if c = CHR ''.'' then ip @ c # takeWhile (\<lambda>c. digitVal c \<noteq> None) cs else ip
         | [] \<Rightarrow> ip)"

definition parseFloat :: "string \<Rightarrow> rat option" where
  "parseFloat s = signed (\<lambda>r. unsignedDecimal (decimalPrefix r)) s"

section \<open>Array helpers of JavaScript\<close>

text \<open>\<^verbatim>\<open>Array.prototype.findIndex\<close>: the index of the first match, or \<open>-1\<close>.\<close>

fun findIndex :: "('a \<Rightarrow> bool) \<Rightarrow> 'a list \<Rightarrow> int" where
  "findIndex P [] = -1"
| "findIndex P (x # xs) =
     (if P x then 0 else (let i = findIndex P xs in if i = -1 then -1 else i + 1))"

text \<open>\<^verbatim>\<open>side.splice(index, 1)\<close> for an index in range: the element there is removed.\<close>

definition splice1 :: "nat \<Rightarrow> 'a list \<Rightarrow> 'a list" where
  "splice1 i xs = take i xs @ drop (Suc i) xs"

text \<open>
  \<^verbatim>\<open>Array.prototype.sort(cmp)\<close>: a stable sort; \<open>a\<close> stays before \<open>b\<close> unless
  \<open>cmp a b > 0\<close>. A comparator result of \<^verbatim>\<open>NaN\<close> counts as 0. For a comparator that
  is a consistent order the result is the one stable sorted arrangement, which insertion
  from the right computes; for an inconsistent comparator ECMAScript leaves the order to
  the implementation, and the model is then only one possible outcome.
\<close>

fun insertJS :: "('a \<Rightarrow> 'a \<Rightarrow> rat) \<Rightarrow> 'a \<Rightarrow> 'a list \<Rightarrow> 'a list" where
  "insertJS cmp x [] = [x]"
| "insertJS cmp x (y # ys) = (if cmp x y \<le> 0 then x # y # ys else y # insertJS cmp x ys)"

definition sortJS :: "('a \<Rightarrow> 'a \<Rightarrow> rat) \<Rightarrow> 'a list \<Rightarrow> 'a list" where
  "sortJS cmp xs = foldr (insertJS cmp) xs []"

text \<open>\<^verbatim>\<open>x - y\<close> on numbers that may be \<^verbatim>\<open>NaN\<close>, as a comparator result.\<close>

definition minusNaN :: "rat option \<Rightarrow> rat option \<Rightarrow> rat" where
  "minusNaN x y = (case (x, y) of (Some a, Some b) \<Rightarrow> a - b | _ \<Rightarrow> 0)"

section \<open>The book replica\<close>

text \<open>A price level is the pair \<^verbatim>\<open>[price, qty]\<close> of strings, as received.\<close>

type_synonym level = "string \<times> string"

record book =
  lastUpdateId :: int
  bids :: "level list"
  asks :: "level list"

text \<open>
  One iteration of the inner \<^verbatim>\<open>deltas.forEach\<close> of \<^verbatim>\<open>_applyDeltas\<close>: the level
  is looked up by string equality of the price; a zero quantity removes it, a price not
  found is pushed at the end, a price found has its quantity overwritten in place.
\<close>

definition applyLevel :: "level list \<Rightarrow> level \<Rightarrow> level list" where
  "applyLevel side d =
     (let price = fst d; qty = snd d;
          index = findIndex (\<lambda>l. fst l = price) side
      in if toNumber qty = Some 0 then (if index > -1 then splice1 (nat index) side else side)
         else if index = -1 then side @ [(price, qty)]
         else side[nat index := (fst (side ! nat index), qty)])"

definition applySide :: "level list \<Rightarrow> level list \<Rightarrow> level list" where
  "applySide side deltas = foldl applyLevel side deltas"

definition cmpBids :: "level \<Rightarrow> level \<Rightarrow> rat" where
  "cmpBids a b = minusNaN (parseFloat (fst b)) (parseFloat (fst a))"

definition cmpAsks :: "level \<Rightarrow> level \<Rightarrow> rat" where
  "cmpAsks a b = minusNaN (parseFloat (fst a)) (parseFloat (fst b))"

text \<open>\<^verbatim>\<open>_applyDeltas(book, bids, asks)\<close>: both sides are updated, then sorted.\<close>

definition applyDeltas :: "book \<Rightarrow> level list \<Rightarrow> level list \<Rightarrow> book" where
  "applyDeltas bk bs as =
     bk\<lparr>bids := sortJS cmpBids (applySide (bids bk) bs),
        asks := sortJS cmpAsks (applySide (asks bk) as)\<rparr>"


subsection \<open>Order of a side, and sequences of replica operations\<close>

text \<open>\<^verbatim>\<open>x < y\<close> on numbers that may be \<^verbatim>\<open>NaN\<close>: false when either is.\<close>

definition ltNaN :: "rat option \<Rightarrow> rat option \<Rightarrow> bool" where
  "ltNaN x y = (case (x, y) of (Some a, Some b) \<Rightarrow> a < b | _ \<Rightarrow> False)"

definition strictlyAscending :: "level list \<Rightarrow> bool" where
  "strictlyAscending side =
     sorted_wrt (\<lambda>a b. ltNaN (parseFloat (fst a)) (parseFloat (fst b))) side"

definition strictlyDescending :: "level list \<Rightarrow> bool" where
  "strictlyDescending side =
     sorted_wrt (\<lambda>a b. ltNaN (parseFloat (fst b)) (parseFloat (fst a))) side"

definition sortedBook :: "book \<Rightarrow> bool" where
  "sortedBook bk = (strictlyDescending (bids bk) \<and> strictlyAscending (asks bk))"

text \<open>
  \<^verbatim>\<open>const { lastUpdateId, bids, asks } = response.data;
  this.orderBooks[symbol] = { lastUpdateId, bids, asks };\<close>
  The replica built by \<^verbatim>\<open>_resetOrderBook\<close> from the body of the REST response.
\<close>

definition snapshotBook :: "book \<Rightarrow> book" where
  "snapshotBook rdata =
     \<lparr>lastUpdateId = lastUpdateId rdata, bids = bids rdata, asks = asks rdata\<rparr>"

datatype bookOp = SnapshotOp book | DeltaOp "level list" "level list"

fun applyOp :: "book \<Rightarrow> bookOp \<Rightarrow> book" where
  "applyOp bk (SnapshotOp rdata) = snapshotBook rdata"
| "applyOp bk (DeltaOp bs as) = applyDeltas bk bs as"

text \<open>The price strings that occur in a replica or in an operation.\<close>

definition bookPrices :: "book \<Rightarrow> string set" where
  "bookPrices bk = fst ` set (bids bk) \<union> fst ` set (asks bk)"

fun opPrices :: "bookOp \<Rightarrow> string set" where
  "opPrices (SnapshotOp rdata) = bookPrices rdata"
| "opPrices (DeltaOp bs as) = fst ` set bs \<union> fst ` set as"

fun snapshotsSorted :: "bookOp \<Rightarrow> bool" where
  "snapshotsSorted (SnapshotOp rdata) = sortedBook rdata"
| "snapshotsSorted (DeltaOp bs as) = True"


definition askKey :: "level \<Rightarrow> rat" where
  "askKey l = the (parseFloat (fst l))"

section \<open>The order book service (\<^verbatim>\<open>BinanceCOB\<close>)\<close>

text \<open>
  The service is event driven and single threaded: every handler below runs to its end
  before the next event is taken. A handler is a function from the state of the service
  to the next state. What leaves the process is recorded in the state: \<open>sent\<close> lists
  the messages handed to \<^verbatim>\<open>ws.send\<close> of local clients in the order of the calls,
  \<open>requests\<close> the REST snapshot requests in flight, \<open>timers\<close> the pending
  \<^verbatim>\<open>setTimeout\<close> callbacks, \<open>logged\<close> the warnings and errors written to the console
  (informational \<^verbatim>\<open>console.log\<close> lines are left out), \<open>uncaught\<close> the exceptions
  that escaped a handler. Identifiers of the source that start with an underscore are
  written without it. \<^verbatim>\<open>Date.now()\<close> is the argument \<open>now\<close> of a handler. Update
  ids are JavaScript numbers below \<open>2^53\<close>, modelled as integers.
\<close>

datatype readyState = CONNECTING | OPEN | CLOSING | CLOSED

text \<open>
  A local client socket. \<open>symbolTag\<close> is the property \<^verbatim>\<open>ws.symbol\<close>, undefined until
  \<^verbatim>\<open>_handleClient\<close> sets it. Whether \<^verbatim>\<open>ws.send\<close> raises is decided by the
  \<^verbatim>\<open>ws\<close> library and the socket, outside this repository: \<open>sendThrows\<close>.
\<close>

record client =
  cid :: nat
  symbolTag :: "string option"
  connectTime :: "int option"
  readyState :: readyState
  sendThrows :: bool

text \<open>A depth event of the exchange stream, \<^verbatim>\<open>{ e, E, s, U, u, b, a }\<close>.\<close>

record depthUpdate =
  d_e :: string
  d_E :: int
  d_s :: string
  d_U :: int
  d_u :: int
  d_b :: "level list"
  d_a :: "level list"

record histSnapshot =
  timestamp :: int
  h_lastUpdateId :: int
  h_bids :: "level list"
  h_asks :: "level list"

text \<open>
  The JSON objects sent to local clients, by their \<^verbatim>\<open>type\<close> field. The snapshot of a
  \<^verbatim>\<open>resync\<close> or \<^verbatim>\<open>live_snapshot\<close> is \<^verbatim>\<open>this.orderBooks[symbol]\<close>, which
  \<^verbatim>\<open>JSON.stringify\<close> drops when it is undefined. The constant \<^verbatim>\<open>message\<close> texts
  are left out.
\<close>

datatype message =
    MError string
  | MHistorical nat nat book int
  | MHistoricalComplete int
  | MLiveSnapshot "book option" int
  | MDepthUpdate string depthUpdate int
  | MResync "book option" int

datatype logEntry =
    NoOrderBook string
  | OutOfSync string int int
  | FetchFailed string
  | ClientSendError string
  | ResyncSendError string
  | SnapshotSendError string
  | HistoryReadError string

datatype timer = RetryReset string | SendSnapshot nat string

text \<open>
  The history file of a symbol as \<^verbatim>\<open>getHistoricalData\<close> finds it: missing, not
  readable as JSON, JSON that is not an array, or an array of snapshots.
\<close>

datatype diskFile = NoFile | Unreadable | NotArray | DiskArray "histSnapshot list"

record cob =
  orderBooks :: "string \<Rightarrow> book option"
  historicalData :: "string \<Rightarrow> histSnapshot list option"
  files :: "string \<Rightarrow> diskFile"
  clients :: "client list"
  binanceUpdateCounter :: "string \<Rightarrow> nat"
  updateCounter :: "string \<Rightarrow> nat"
  sent :: "(nat \<times> message) list"
  requests :: "(string \<times> bool) list"
  timers :: "timer list"
  logged :: "logEntry list"
  uncaught :: nat

subsection \<open>Sending\<close>

text \<open>\<^verbatim>\<open>ws.send(data)\<close>: \<open>None\<close> when the call raises.\<close>

definition wsSend :: "client \<Rightarrow> message \<Rightarrow> cob \<Rightarrow> cob option" where
  "wsSend c m st = (if sendThrows c then None else Some (st\<lparr>sent := sent st @ [(cid c, m)]\<rparr>))"

text \<open>\<^verbatim>\<open>try { client.send(message) } catch (err) { console.error(...) }\<close>\<close>

definition trySend :: "logEntry \<Rightarrow> message \<Rightarrow> cob \<Rightarrow> client \<Rightarrow> cob" where
  "trySend err m st c =
     (case wsSend c m st of Some st' \<Rightarrow> st' | None \<Rightarrow> st\<lparr>logged := logged st @ [err]\<rparr>)"

text \<open>
  \<^verbatim>\<open>Array.from(this.localWSS.clients).filter(client => client.symbol === symbol &&
  client.readyState === WebSocket.OPEN)\<close>
\<close>

definition symbolClients :: "string \<Rightarrow> cob \<Rightarrow> client list" where
  "symbolClients symbol st =
     filter (\<lambda>c. symbolTag c = Some symbol \<and> readyState c = OPEN) (clients st)"

definition broadcastLiveUpdate :: "int \<Rightarrow> string \<Rightarrow> depthUpdate \<Rightarrow> cob \<Rightarrow> cob" where
  "broadcastLiveUpdate now symbol upd st =
     (let cs = symbolClients symbol st
      in if cs = [] then st
         else let st1 = foldl (trySend (ClientSendError symbol) (MDepthUpdate symbol upd now)) st cs
              in st1\<lparr>updateCounter := (updateCounter st1)(symbol := updateCounter st1 symbol + 1)\<rparr>)"

definition broadcastResync :: "int \<Rightarrow> string \<Rightarrow> cob \<Rightarrow> cob" where
  "broadcastResync now symbol st =
     (let cs = symbolClients symbol st
      in if cs = [] then st
         else foldl (trySend (ResyncSendError symbol) (MResync (orderBooks st symbol) now)) st cs)"

definition sendSnapshotToClient :: "int \<Rightarrow> client \<Rightarrow> string \<Rightarrow> cob \<Rightarrow> cob" where
  "sendSnapshotToClient now c symbol st =
     (if orderBooks st symbol = None \<or> readyState c \<noteq> OPEN then st
      else trySend (SnapshotSendError symbol) (MLiveSnapshot (orderBooks st symbol) now) st c)"

subsection \<open>Snapshot fetch\<close>

text \<open>
  \<^verbatim>\<open>_resetOrderBook(symbol)\<close> is asynchronous. Its call starts a REST request and
  returns a promise; \<open>resetOrderBook\<close> is that first half, and records with the request
  whether the caller chained \<^verbatim>\<open>.then(() => this._broadcastResync(symbol))\<close> to the
  promise (the gap branch of the depth handler does, the retry timer and \<^verbatim>\<open>_init\<close>
  do not). \<open>resetOrderBookDone\<close> is the second half, run when the response (\<open>Some\<close>
  body) or the failure (\<open>None\<close>) of a request in flight arrives: the \<^verbatim>\<open>try\<close> body
  stores the snapshot, the \<^verbatim>\<open>catch\<close> logs and sets the retry timer; either way the
  function returns normally, its promise is fulfilled, and a chained callback runs
  next, before any other event.
\<close>

definition resetOrderBook :: "string \<Rightarrow> bool \<Rightarrow> cob \<Rightarrow> cob" where
  "resetOrderBook symbol thenResync st = st\<lparr>requests := requests st @ [(symbol, thenResync)]\<rparr>"

definition resetOrderBookDone :: "int \<Rightarrow> string \<Rightarrow> bool \<Rightarrow> book option \<Rightarrow> cob \<Rightarrow> cob" where
  "resetOrderBookDone now symbol thenResync response st =
     (let st0 = st\<lparr>requests := remove1 (symbol, thenResync) (requests st)\<rparr>;
          st1 = (case response of
                   Some rdata \<Rightarrow> st0\<lparr>orderBooks := (orderBooks st0)(symbol \<mapsto> snapshotBook rdata)\<rparr>
                 | None \<Rightarrow> st0\<lparr>logged := logged st0 @ [FetchFailed symbol],
                               timers := timers st0 @ [RetryReset symbol]\<rparr>)
      in if thenResync then broadcastResync now symbol st1 else st1)"

subsection \<open>The depth stream handler\<close>

text \<open>
  The \<^verbatim>\<open>ws.on('message')\<close> callback of \<^verbatim>\<open>_connectDepthWS(symbol)\<close>, for a message
  that parses to a depth event object.
\<close>

definition onDepthMessage :: "int \<Rightarrow> string \<Rightarrow> depthUpdate \<Rightarrow> cob \<Rightarrow> cob" where
  "onDepthMessage now symbol upd st =
     (if d_e upd \<noteq> ''depthUpdate'' then st
      else case orderBooks st symbol of
             None \<Rightarrow> st\<lparr>logged := logged st @ [NoOrderBook symbol]\<rparr>
           | Some bk \<Rightarrow>
               let st1 = st\<lparr>binanceUpdateCounter :=
                              (binanceUpdateCounter st)(symbol := binanceUpdateCounter st symbol + 1)\<rparr>
               in if d_U upd \<le> lastUpdateId bk + 1 \<and> d_u upd \<ge> lastUpdateId bk + 1 then
                    broadcastLiveUpdate now symbol upd
                      (st1\<lparr>orderBooks := (orderBooks st1)
                             (symbol \<mapsto> (applyDeltas bk (d_b upd) (d_a upd))\<lparr>lastUpdateId := d_u upd\<rparr>)\<rparr>)
                  else if d_U upd > lastUpdateId bk + 1 then
                    resetOrderBook symbol True
                      (st1\<lparr>logged := logged st1 @ [OutOfSync symbol (lastUpdateId bk + 1) (d_U upd)]\<rparr>)
                  else st1)"


subsection \<open>History of snapshots\<close>

text \<open>
  \<^verbatim>\<open>_saveSnapshot(symbol)\<close>: the current top 20 levels are put at the front of the
  in-memory history, which keeps its first 200 entries; every 20th length schedules the
  commit to disk (\<^verbatim>\<open>_commitHistoricalDataAsync\<close>, which maintains \<open>files\<close> and is not
  modelled). A snapshot holds copies of the level lists; that the source shares the inner
  \<^verbatim>\<open>[price, qty]\<close> arrays with the live book is not modelled, and no statement below
  depends on the levels of a stored snapshot.
\<close>

datatype job = CommitHistory string

definition saveSnapshot :: "int \<Rightarrow> string \<Rightarrow> cob \<Rightarrow> cob \<times> job list" where
  "saveSnapshot now symbol st =
     (case orderBooks st symbol of
        None \<Rightarrow> (st, [])
      | Some bk \<Rightarrow>
          (case historicalData st symbol of
             None \<Rightarrow> (st, [])
           | Some h \<Rightarrow>
               let snapshot = \<lparr>timestamp = now, h_lastUpdateId = lastUpdateId bk,
                                h_bids = take 20 (bids bk), h_asks = take 20 (asks bk)\<rparr>;
                   h1 = snapshot # h;
                   h2 = (if length h1 > 200 then take 200 h1 else h1)
               in (st\<lparr>historicalData := (historicalData st)(symbol \<mapsto> h2)\<rparr>,
                   if length h2 mod 20 = 0 then [CommitHistory symbol] else [])))"

text \<open>\<^verbatim>\<open>arr.slice(0, limit)\<close>; a negative limit counts from the end.\<close>

definition slice0 :: "int \<Rightarrow> 'a list \<Rightarrow> 'a list" where
  "slice0 limit xs =
     (if limit \<ge> 0 then take (nat limit) xs else take (nat (int (length xs) + limit)) xs)"

text \<open>
  \<^verbatim>\<open>combined.filter((item, index, arr) =>
     arr.findIndex(x => x.timestamp === item.timestamp) === index)\<close>
\<close>

definition uniqueByTimestamp :: "histSnapshot list \<Rightarrow> histSnapshot list" where
  "uniqueByTimestamp arr =
     map snd (filter (\<lambda>(index, item). findIndex (\<lambda>x. timestamp x = timestamp item) arr = int index)
                     (enumerate 0 arr))"

definition cmpNewestFirst :: "histSnapshot \<Rightarrow> histSnapshot \<Rightarrow> rat" where
  "cmpNewestFirst x y = of_int (timestamp y - timestamp x)"

text \<open>
  \<^verbatim>\<open>getHistoricalData(symbol, limit)\<close>: the in-memory history, merged with the file of
  the symbol when memory holds fewer than \<open>limit\<close> snapshots; a file that is missing,
  unreadable or not an array leaves the in-memory list (the \<^verbatim>\<open>catch\<close> only logs).
\<close>

definition getHistoricalData :: "string \<Rightarrow> int \<Rightarrow> cob \<Rightarrow> histSnapshot list" where
  "getHistoricalData symbol limit st =
     (let inMemory = (case historicalData st symbol of None \<Rightarrow> [] | Some h \<Rightarrow> h);
          historicalSnapshots =
            (if int (length inMemory) < limit then
               (case files st symbol of
                  DiskArray diskData \<Rightarrow>
                    sortJS cmpNewestFirst (uniqueByTimestamp (inMemory @ diskData))
                | _ \<Rightarrow> inMemory)
             else inMemory)
      in slice0 limit historicalSnapshots)"

subsection \<open>Client connections\<close>


definition toUpperChar :: "char \<Rightarrow> char" where
  "toUpperChar c =
     (let n = (of_char c :: nat) in if 97 \<le> n \<and> n \<le> 122 then char_of (n - 32) else c)"

definition toUpperCase :: "string \<Rightarrow> string" where
  "toUpperCase s = map toUpperChar s"











text \<open>A pending timer fires; the socket of a snapshot timer is looked up as it is then.\<close>

definition fireTimer :: "int \<Rightarrow> timer \<Rightarrow> cob \<Rightarrow> cob" where
  "fireTimer now t st =
     (let st0 = st\<lparr>timers := remove1 t (timers st)\<rparr>
      in case t of
           RetryReset symbol \<Rightarrow> resetOrderBook symbol False st0
         | SendSnapshot i symbol \<Rightarrow>
             (case find (\<lambda>c. cid c = i) (clients st0) of
                Some c \<Rightarrow> sendSnapshotToClient now c symbol st0
              | None \<Rightarrow> st0))"

text \<open>The messages handed to the socket \<open>i\<close>, in order.\<close>

definition received :: "nat \<Rightarrow> cob \<Rightarrow> message list" where
  "received i st = map snd (filter (\<lambda>p. fst p = i) (sent st))"


section \<open>Events of the service\<close>




text \<open>Consecutive depth events of one symbol, handled in order.\<close>

definition onDepthMessages :: "int \<Rightarrow> string \<Rightarrow> depthUpdate list \<Rightarrow> cob \<Rightarrow> cob" where
  "onDepthMessages now symbol upds st = foldl (\<lambda>s upd. onDepthMessage now symbol upd s) st upds"





section \<open>The kline concentrator (\<^verbatim>\<open>BinanceWebSocketConcentrator\<close>)\<close>

text \<open>
  Messages are JSON values; an object is the list of its members in order, with pairwise
  different keys. A message string and the value it parses to are identified
  (\<^verbatim>\<open>JSON.parse(JSON.stringify(v))\<close> is \<open>v\<close>).
\<close>

datatype json =
    JNull
  | JBool bool
  | JNum rat
  | JStr string
  | JArr "json list"
  | JObj "(string \<times> json) list"

fun truthy :: "json \<Rightarrow> bool" where
  "truthy JNull = False"
| "truthy (JBool v) = v"
| "truthy (JNum n) = (n \<noteq> 0)"
| "truthy (JStr s) = (s \<noteq> [])"
| "truthy (JArr vs) = True"
| "truthy (JObj fs) = True"

text \<open>\<^verbatim>\<open>v.key\<close> for the member names \<^verbatim>\<open>s\<close>, \<^verbatim>\<open>k\<close>, \<^verbatim>\<open>e\<close>, \<^verbatim>\<open>i\<close>, \<^verbatim>\<open>data\<close>:
  \<open>None\<close> is \<^verbatim>\<open>undefined\<close>, which is what a value that is not an object gives.\<close>

fun getProp :: "string \<Rightarrow> json \<Rightarrow> json option" where
  "getProp key (JObj fs) = map_of fs key"
| "getProp key v = None"

text \<open>\<^verbatim>\<open>v.key = x\<close> as the serialised value shows it: a member of an object is
  replaced or added; a property set on an array is not serialised. (On \<^verbatim>\<open>null\<close>, a
  string, a number or a boolean the assignment raises, see \<open>masquerade\<close>; \<open>setProp\<close>
  is not used on them.)\<close>

fun setProp :: "string \<Rightarrow> json \<Rightarrow> json \<Rightarrow> json" where
  "setProp key x (JObj fs) =
     (if key \<in> fst ` set fs
      then JObj (map (\<lambda>f. if fst f = key then (key, x) else f) fs)
      else JObj (fs @ [(key, x)]))"
| "setProp key x v = v"

text \<open>
  \<^verbatim>\<open>masqueraded.s = 'XRPLUSD';
  if (masqueraded.k && masqueraded.k.s) masqueraded.k.s = 'XRPLUSD';\<close>
  on a parsed object or array. The methods are class members, hence strict code: on
  \<^verbatim>\<open>null\<close>, a string, a number or a boolean the first assignment raises a
  \<^verbatim>\<open>TypeError\<close> (\<open>None\<close> in \<open>masquerade\<close>).
\<close>

definition rewriteSymbol :: "json \<Rightarrow> json" where
  "rewriteSymbol parsed =
     (let m1 = setProp ''s'' (JStr ''XRPLUSD'') parsed
      in case getProp ''k'' m1 of
           Some k \<Rightarrow>
             (if truthy k \<and> (case getProp ''s'' k of Some ks \<Rightarrow> truthy ks | None \<Rightarrow> False)
              then setProp ''k'' (setProp ''s'' (JStr ''XRPLUSD'') k) m1
              else m1)
         | None \<Rightarrow> m1)"

definition masquerade :: "json \<Rightarrow> json option" where
  "masquerade parsed =
     (case parsed of
        JObj fs \<Rightarrow> Some (rewriteSymbol parsed)
      | JArr vs \<Rightarrow> Some (rewriteSymbol parsed)
      | _ \<Rightarrow> None)"

text \<open>
  A plugin client socket, and the entry that \<^verbatim>\<open>this.clients\<close> (a \<^verbatim>\<open>Map\<close>, in insertion
  order) holds for it.
\<close>

record plugin =
  pid :: nat
  pReadyState :: readyState
  pSendThrows :: bool

record subscription =
  subSymbol :: "string option"
  subInterval :: "string option"
  subLimit :: "string option"
  subMasquerade :: bool

datatype klineLog = MasqueradeFailed | LiveSendFailed | StreamError

record wsc =
  subscribers :: "(plugin \<times> subscription) list"
  delivered :: "(nat \<times> json) list"
  errors :: "klineLog list"
  escaped :: nat




definition pluginSend :: "plugin \<Rightarrow> json \<Rightarrow> wsc \<Rightarrow> wsc option" where
  "pluginSend c m st =
     (if pSendThrows c then None else Some (st\<lparr>delivered := delivered st @ [(pid c, m)]\<rparr>))"

text \<open>
  The body of the loop of \<^verbatim>\<open>broadcastToClientsForSymbol\<close> for one matching open
  client: the inner \<^verbatim>\<open>try\<close> parses, rewrites and sends; its \<^verbatim>\<open>catch\<close> logs and
  sends the message as it is; the outer \<^verbatim>\<open>catch\<close> logs.
\<close>

definition deliver :: "json \<Rightarrow> wsc \<Rightarrow> plugin \<times> subscription \<Rightarrow> wsc" where
  "deliver message st p =
     (let client = fst p; subscription = snd p
      in if subMasquerade subscription then
           (case (case masquerade message of
                    None \<Rightarrow> None
                  | Some masqueraded \<Rightarrow> pluginSend client masqueraded st) of
              Some st' \<Rightarrow> st'
            | None \<Rightarrow>
                (let st1 = st\<lparr>errors := errors st @ [MasqueradeFailed]\<rparr>
                 in case pluginSend client message st1 of
                      Some st' \<Rightarrow> st'
                    | None \<Rightarrow> st1\<lparr>errors := errors st1 @ [LiveSendFailed]\<rparr>))
         else
           (case pluginSend client message st of
              Some st' \<Rightarrow> st'
            | None \<Rightarrow> st\<lparr>errors := errors st @ [LiveSendFailed]\<rparr>))"

definition wanted :: "string \<Rightarrow> plugin \<times> subscription \<Rightarrow> bool" where
  "wanted symbol p =
     (case subSymbol (snd p) of
        None \<Rightarrow> False
      | Some s \<Rightarrow> s \<noteq> [] \<and> toUpperCase s = toUpperCase symbol \<and> pReadyState (fst p) = OPEN)"

definition broadcastToClientsForSymbol :: "string \<Rightarrow> json \<Rightarrow> wsc \<Rightarrow> wsc" where
  "broadcastToClientsForSymbol symbol message st =
     foldl (deliver message) st (filter (wanted symbol) (subscribers st))"

text \<open>
  The \<^verbatim>\<open>ws.on('message')\<close> callback of the exchange stream of a symbol, for a message
  that parses: a 1-minute kline event is broadcast, anything else is dropped; reading
  \<^verbatim>\<open>data.k.i\<close> of an event without \<^verbatim>\<open>k\<close> raises, which the \<^verbatim>\<open>catch\<close> logs.
\<close>

definition onStreamMessage :: "string \<Rightarrow> json \<Rightarrow> wsc \<Rightarrow> wsc" where
  "onStreamMessage symbol parsed st =
     (case getProp ''data'' parsed of
        None \<Rightarrow> st
      | Some data \<Rightarrow>
          (case getProp ''e'' data of
             None \<Rightarrow> st
           | Some e \<Rightarrow>
               if \<not> truthy data \<or> \<not> truthy e then st
               else if e = JStr ''kline'' then
                 (case getProp ''k'' data of
                    None \<Rightarrow> st\<lparr>errors := errors st @ [StreamError]\<rparr>
                  | Some k \<Rightarrow>
                      if k = JNull then st\<lparr>errors := errors st @ [StreamError]\<rparr>
                      else if getProp ''i'' k = Some (JStr ''1m'')
                      then broadcastToClientsForSymbol symbol data st
                      else st)
               else st))"




section \<open>Example data\<close>

text \<open>A replica, a service state and depth events on which the statements below are
  evaluated.\<close>

definition exampleBook :: book where
  "exampleBook =
     \<lparr>lastUpdateId = 100, bids = [(''2.00'', ''1.5''), (''1.00'', ''4'')],
       asks = [(''3.00'', ''2'')]\<rparr>"

definition exampleHistory :: "histSnapshot list" where
  "exampleHistory =
     [\<lparr>timestamp = 30, h_lastUpdateId = 90, h_bids = [(''2.00'', ''1'')], h_asks = []\<rparr>,
      \<lparr>timestamp = 20, h_lastUpdateId = 80, h_bids = [(''1.00'', ''1'')], h_asks = []\<rparr>,
      \<lparr>timestamp = 10, h_lastUpdateId = 70, h_bids = [], h_asks = [(''3.00'', ''1'')]\<rparr>]"

definition clientA :: client where
  "clientA = \<lparr>cid = 1, symbolTag = Some ''BTCUSDT'', connectTime = Some 0,
               readyState = OPEN, sendThrows = True\<rparr>"

definition clientB :: client where
  "clientB = \<lparr>cid = 2, symbolTag = Some ''BTCUSDT'', connectTime = Some 0,
               readyState = OPEN, sendThrows = False\<rparr>"


definition exampleState :: cob where
  "exampleState =
     \<lparr>orderBooks = [''BTCUSDT'' \<mapsto> exampleBook],
       historicalData = [''BTCUSDT'' \<mapsto> exampleHistory],
       files = (\<lambda>_. NoFile),
       clients = [clientA, clientB],
       binanceUpdateCounter = (\<lambda>_. 0),
       updateCounter = (\<lambda>_. 0),
       sent = [], requests = [], timers = [], logged = [], uncaught = 0\<rparr>"

definition depthEvent :: "int \<Rightarrow> int \<Rightarrow> depthUpdate" where
  "depthEvent lo hi =
     \<lparr>d_e = ''depthUpdate'', d_E = 0, d_s = ''BTCUSDT'', d_U = lo, d_u = hi,
       d_b = [(''1.00'', ''0.00''), (''5.00'', ''2'')], d_a = []\<rparr>"


text \<open>
  A run of the service: a gap is detected (replica at 100, event 105 to 110), the
  snapshot request fails, the retry timer fires, and the second request succeeds.
\<close>

definition newerBook :: book where
  "newerBook = \<lparr>lastUpdateId = 110, bids = [(''2.00'', ''3'')], asks = [(''3.00'', ''1'')]\<rparr>"

definition afterGap :: cob where
  "afterGap = onDepthMessage 7 ''BTCUSDT'' (depthEvent 105 110) exampleState"

definition afterFailedFetch :: cob where
  "afterFailedFetch = resetOrderBookDone 8 ''BTCUSDT'' True None afterGap"

definition afterRetryTimer :: cob where
  "afterRetryTimer = fireTimer 9 (RetryReset ''BTCUSDT'') afterFailedFetch"

definition afterRetrySuccess :: cob where
  "afterRetrySuccess = resetOrderBookDone 10 ''BTCUSDT'' False (Some newerBook) afterRetryTimer"













section \<open>Properties of the replica\<close>

lemma findIndex_none: "\<forall>y\<in>set xs. \<not> P y \<Longrightarrow> findIndex P xs = -1"
  by (induction xs) auto

lemma findIndex_first:
  "\<forall>y\<in>set ys. \<not> P y \<Longrightarrow> P x \<Longrightarrow> findIndex P (ys @ x # zs) = int (length ys)"
  by (induction ys) (auto simp: Let_def)

lemma applyLevel_absent:
  assumes "price \<notin> fst ` set side"
  shows "applyLevel side (price, qty) =
           (if toNumber qty = Some 0 then side else side @ [(price, qty)])"
proof -
  from assms have "findIndex (\<lambda>l. fst l = price) side = -1"
    by (intro findIndex_none) auto
  then show ?thesis by (simp add: applyLevel_def)
qed

lemma applyLevel_present:
  assumes "side = ys @ x # zs" "fst x = price" "price \<notin> fst ` set ys"
  shows "applyLevel side (price, qty) =
           (if toNumber qty = Some 0 then ys @ zs else ys @ (price, qty) # zs)"
proof -
  from assms(3) have "\<forall>y\<in>set ys. \<not> fst y = price" by force
  with assms(1,2) have "findIndex (\<lambda>l. fst l = price) side = int (length ys)"
    by (simp add: findIndex_first)
  with assms show ?thesis by (simp add: applyLevel_def splice1_def)
qed

lemma present_split:
  assumes "price \<in> fst ` set side"
  shows "\<exists>ys x zs. side = ys @ x # zs \<and> fst x = price \<and> price \<notin> fst ` set ys"
proof -
  from assms have "\<exists>l\<in>set side. fst l = price" by auto
  from split_list_first_prop[OF this]
  obtain ys x zs where a: "side = ys @ x # zs" and b: "fst x = price"
    and c: "\<forall>y\<in>set ys. fst y \<noteq> price"
    by blast
  from c have "price \<notin> fst ` set ys" by blast
  with a b show ?thesis by blast
qed

lemma applyLevel_zero:
  assumes "distinct (map fst side)" "toNumber qty = Some 0"
  shows "applyLevel side (price, qty) = filter (\<lambda>l. fst l \<noteq> price) side"
proof (cases "price \<in> fst ` set side")
  case False
  then have "filter (\<lambda>l. fst l \<noteq> price) side = side"
    by (intro filter_True) auto
  with False assms show ?thesis by (simp add: applyLevel_absent)
next
  case True
  from present_split[OF this]
  obtain ys x zs where s: "side = ys @ x # zs" "fst x = price" "price \<notin> fst ` set ys"
    by blast
  with assms(1) have "price \<notin> fst ` set zs" by auto
  have "filter (\<lambda>l. fst l \<noteq> price) ys = ys"
    using s(3) by (intro filter_True) auto
  moreover from \<open>price \<notin> fst ` set zs\<close> have "filter (\<lambda>l. fst l \<noteq> price) zs = zs"
    by (intro filter_True) auto
  ultimately have "filter (\<lambda>l. fst l \<noteq> price) side = ys @ zs"
    using s by simp
  with s assms show ?thesis by (simp add: applyLevel_present)
qed

lemma applyLevel_overwrite:
  assumes "distinct (map fst side)" "toNumber qty \<noteq> Some 0" "price \<in> fst ` set side"
  shows "applyLevel side (price, qty) = map (\<lambda>l. if fst l = price then (price, qty) else l) side"
proof -
  from present_split[OF assms(3)]
  obtain ys x zs where s: "side = ys @ x # zs" "fst x = price" "price \<notin> fst ` set ys"
    by blast
  with assms(1) have z: "price \<notin> fst ` set zs" by auto
  have "map (\<lambda>l. if fst l = price then (price, qty) else l) ys = ys"
    using s(3) by (intro map_idI) auto
  moreover have "map (\<lambda>l. if fst l = price then (price, qty) else l) zs = zs"
    using z by (intro map_idI) auto
  ultimately show ?thesis using s assms(2) by (simp add: applyLevel_present)
qed

lemma applyLevel_prices:
  "fst ` set (applyLevel side d) \<subseteq> insert (fst d) (fst ` set side)"
proof (cases "fst d \<in> fst ` set side")
  case False
  then show ?thesis using applyLevel_absent[of "fst d" side "snd d"] by auto
next
  case True
  from present_split[OF this]
  obtain ys x zs where s: "side = ys @ x # zs" "fst x = fst d" "fst d \<notin> fst ` set ys"
    by blast
  then show ?thesis using applyLevel_present[OF s, of "snd d"] by auto
qed

lemma applyLevel_distinct:
  assumes "distinct (map fst side)"
  shows "distinct (map fst (applyLevel side d))"
proof (cases "fst d \<in> fst ` set side")
  case False
  then show ?thesis using assms applyLevel_absent[of "fst d" side "snd d"] by auto
next
  case True
  from present_split[OF this]
  obtain ys x zs where s: "side = ys @ x # zs" "fst x = fst d" "fst d \<notin> fst ` set ys"
    by blast
  then show ?thesis using assms applyLevel_present[OF s, of "snd d"] by auto
qed

lemma applySide_distinct:
  "distinct (map fst side) \<Longrightarrow> distinct (map fst (applySide side ds))"
  unfolding applySide_def
  by (induction ds arbitrary: side) (auto simp: applyLevel_distinct)

lemma applySide_prices:
  "fst ` set (applySide side ds) \<subseteq> fst ` set side \<union> fst ` set ds"
  unfolding applySide_def
proof (induction ds arbitrary: side)
  case Nil
  then show ?case by simp
next
  case (Cons d ds)
  have "fst ` set (foldl applyLevel (applyLevel side d) ds)
          \<subseteq> fst ` set (applyLevel side d) \<union> fst ` set ds"
    by (rule Cons.IH)
  also have "\<dots> \<subseteq> insert (fst d) (fst ` set side) \<union> fst ` set ds"
    using applyLevel_prices[of side d] by blast
  finally show ?case by auto
qed

lemma mset_insertJS: "mset (insertJS cmp x xs) = add_mset x (mset xs)"
  by (induction xs) auto

lemma mset_sortJS: "mset (sortJS cmp xs) = mset xs"
  unfolding sortJS_def by (induction xs) (auto simp: mset_insertJS)


lemma insertJS_asks:
  assumes "\<forall>l\<in>set (x # ys). parseFloat (fst l) \<noteq> None"
  shows "insertJS cmpAsks x ys = insort_key askKey x ys"
  using assms
  by (induction ys) (auto simp: cmpAsks_def minusNaN_def askKey_def)

lemma insertJS_bids:
  assumes "\<forall>l\<in>set (x # ys). parseFloat (fst l) \<noteq> None"
  shows "insertJS cmpBids x ys = insort_key (\<lambda>l. - askKey l) x ys"
  using assms
  by (induction ys) (auto simp: cmpBids_def minusNaN_def askKey_def)

lemma set_insertJS: "set (insertJS cmp x xs) = insert x (set xs)"
  by (induction xs) auto

lemma set_sortJS: "set (sortJS cmp xs) = set xs"
  unfolding sortJS_def by (induction xs) (auto simp: set_insertJS)

lemma sortJS_asks:
  assumes "\<forall>l\<in>set xs. parseFloat (fst l) \<noteq> None"
  shows "sortJS cmpAsks xs = sort_key askKey xs"
  using assms
proof (induction xs)
  case Nil
  then show ?case by (simp add: sortJS_def)
next
  case (Cons x xs)
  then have eq: "sortJS cmpAsks xs = sort_key askKey xs" by simp
  have "\<forall>l\<in>set (x # sortJS cmpAsks xs). parseFloat (fst l) \<noteq> None"
    using Cons.prems by (simp add: set_sortJS)
  then have "insertJS cmpAsks x (sortJS cmpAsks xs) = insort_key askKey x (sortJS cmpAsks xs)"
    by (rule insertJS_asks)
  with eq show ?case by (simp add: sortJS_def)
qed

lemma sortJS_bids:
  assumes "\<forall>l\<in>set xs. parseFloat (fst l) \<noteq> None"
  shows "sortJS cmpBids xs = sort_key (\<lambda>l. - askKey l) xs"
  using assms
proof (induction xs)
  case Nil
  then show ?case by (simp add: sortJS_def)
next
  case (Cons x xs)
  then have eq: "sortJS cmpBids xs = sort_key (\<lambda>l. - askKey l) xs" by simp
  have "\<forall>l\<in>set (x # sortJS cmpBids xs). parseFloat (fst l) \<noteq> None"
    using Cons.prems by (simp add: set_sortJS)
  then have "insertJS cmpBids x (sortJS cmpBids xs)
               = insort_key (\<lambda>l. - askKey l) x (sortJS cmpBids xs)"
    by (rule insertJS_bids)
  with eq show ?case by (simp add: sortJS_def)
qed

lemma distinct_fst_sortJS: "distinct (map fst (sortJS cmp xs)) = distinct (map fst xs)"
proof -
  have "mset (map fst (sortJS cmp xs)) = mset (map fst xs)"
    by (simp add: mset_sortJS)
  then show ?thesis by (rule mset_eq_imp_distinct_iff)
qed

lemma distinct_askKey:
  assumes "\<forall>p\<in>P. parseFloat p \<noteq> None" "inj_on parseFloat P"
    "fst ` set xs \<subseteq> P" "distinct (map fst xs)"
  shows "distinct (map askKey xs)"
proof -
  have "inj_on (\<lambda>p. the (parseFloat p)) P"
  proof (rule inj_onI)
    fix p q assume "p \<in> P" "q \<in> P" "the (parseFloat p) = the (parseFloat q)"
    with assms(1) have "parseFloat p = parseFloat q" by (metis option.expand)
    with assms(2) \<open>p \<in> P\<close> \<open>q \<in> P\<close> show "p = q" by (simp add: inj_on_def)
  qed
  then have "inj_on (\<lambda>p. the (parseFloat p)) (set (map fst xs))"
    using assms(3) by (auto intro: inj_on_subset)
  then have "distinct (map fst xs) \<and> inj_on (\<lambda>p. the (parseFloat p)) (set (map fst xs))"
    using assms(4) by (rule conjI[rotated])
  then have "distinct (map (\<lambda>p. the (parseFloat p)) (map fst xs))"
    by (rule distinct_map[THEN iffD2])
  then show ?thesis by (simp add: askKey_def[abs_def] comp_def)
qed

lemma sorted_wrt_eq_on:
  assumes "\<And>x y. x \<in> set xs \<Longrightarrow> y \<in> set xs \<Longrightarrow> P x y = Q x y"
  shows "sorted_wrt P xs = sorted_wrt Q xs"
proof
  assume "sorted_wrt P xs"
  then show "sorted_wrt Q xs"
    by (rule sorted_wrt_mono_rel[rotated]) (simp add: assms)
next
  assume "sorted_wrt Q xs"
  then show "sorted_wrt P xs"
    by (rule sorted_wrt_mono_rel[rotated]) (simp add: assms)
qed

lemma ltNaN_the: "x \<noteq> None \<Longrightarrow> y \<noteq> None \<Longrightarrow> ltNaN x y = (the x < the y)"
  by (cases x; cases y) (simp_all add: ltNaN_def)

lemma strictlyAscending_keys:
  assumes "\<forall>l\<in>set xs. parseFloat (fst l) \<noteq> None"
  shows "strictlyAscending xs = sorted_wrt (<) (map askKey xs)"
proof -
  have "sorted_wrt (\<lambda>a b. ltNaN (parseFloat (fst a)) (parseFloat (fst b))) xs
          = sorted_wrt (\<lambda>a b. askKey a < askKey b) xs"
    using assms
    by (intro sorted_wrt_eq_on) (simp add: ltNaN_the askKey_def)
  then show ?thesis by (simp add: strictlyAscending_def sorted_wrt_map)
qed

lemma strictlyDescending_keys:
  assumes "\<forall>l\<in>set xs. parseFloat (fst l) \<noteq> None"
  shows "strictlyDescending xs = sorted_wrt (<) (map (\<lambda>l. - askKey l) xs)"
proof -
  have "sorted_wrt (\<lambda>a b. ltNaN (parseFloat (fst b)) (parseFloat (fst a))) xs
          = sorted_wrt (\<lambda>a b. - askKey a < - askKey b) xs"
    using assms
    by (intro sorted_wrt_eq_on) (simp add: ltNaN_the askKey_def)
  then show ?thesis by (simp add: strictlyDescending_def sorted_wrt_map)
qed

lemma sort_strict_asks:
  assumes "\<forall>p\<in>P. parseFloat p \<noteq> None" "inj_on parseFloat P"
    "fst ` set xs \<subseteq> P" "distinct (map fst xs)"
  shows "strictlyAscending (sortJS cmpAsks xs)"
proof -
  from assms(1,3) have parse: "\<forall>l\<in>set xs. parseFloat (fst l) \<noteq> None" by auto
  have "distinct (map askKey xs)" using assms by (rule distinct_askKey)
  then have "distinct (map askKey (sort_key askKey xs))"
    by (metis distinct_map distinct_sort set_sort)
  moreover have "sorted (map askKey (sort_key askKey xs))" by (rule sorted_sort_key)
  ultimately have "sorted_wrt (<) (map askKey (sort_key askKey xs))"
    by (simp add: strict_sorted_iff)
  moreover have "\<forall>l\<in>set (sort_key askKey xs). parseFloat (fst l) \<noteq> None"
    using parse by simp
  ultimately have "strictlyAscending (sort_key askKey xs)"
    by (simp add: strictlyAscending_keys)
  with parse show ?thesis by (simp add: sortJS_asks)
qed

lemma sort_strict_bids:
  assumes "\<forall>p\<in>P. parseFloat p \<noteq> None" "inj_on parseFloat P"
    "fst ` set xs \<subseteq> P" "distinct (map fst xs)"
  shows "strictlyDescending (sortJS cmpBids xs)"
proof -
  let ?k = "\<lambda>l. - askKey l"
  from assms(1,3) have parse: "\<forall>l\<in>set xs. parseFloat (fst l) \<noteq> None" by auto
  have "distinct (map askKey xs)" using assms by (rule distinct_askKey)
  then have "distinct (map ?k xs)"
    by (simp add: distinct_map inj_on_def)
  then have "distinct (map ?k (sort_key ?k xs))"
    by (metis distinct_map distinct_sort set_sort)
  moreover have "sorted (map ?k (sort_key ?k xs))" by (rule sorted_sort_key)
  ultimately have "sorted_wrt (<) (map ?k (sort_key ?k xs))"
    by (simp add: strict_sorted_iff)
  moreover have "\<forall>l\<in>set (sort_key ?k xs). parseFloat (fst l) \<noteq> None"
    using parse by simp
  ultimately have "strictlyDescending (sort_key ?k xs)"
    by (simp add: strictlyDescending_keys)
  with parse show ?thesis by (simp add: sortJS_bids)
qed

lemma sorted_wrt_distinct_fst:
  assumes "sorted_wrt R xs" "\<And>a b. R a b \<Longrightarrow> fst a \<noteq> fst b"
  shows "distinct (map fst xs)"
  using assms by (induction xs) auto

lemma strictlyAscending_distinct: "strictlyAscending xs \<Longrightarrow> distinct (map fst xs)"
  unfolding strictlyAscending_def
  by (erule sorted_wrt_distinct_fst) (auto simp: ltNaN_def split: option.splits)

lemma strictlyDescending_distinct: "strictlyDescending xs \<Longrightarrow> distinct (map fst xs)"
  unfolding strictlyDescending_def
  by (erule sorted_wrt_distinct_fst) (auto simp: ltNaN_def split: option.splits)


lemma trySend_eq:
  "trySend err m st c =
     (if sendThrows c then st\<lparr>logged := logged st @ [err]\<rparr>
      else st\<lparr>sent := sent st @ [(cid c, m)]\<rparr>)"
  by (simp add: trySend_def wsSend_def)

lemma foldl_trySend:
  "foldl (trySend err m) st cs =
     st\<lparr>sent := sent st @ map (\<lambda>c. (cid c, m)) (filter (\<lambda>c. \<not> sendThrows c) cs),
        logged := logged st @ replicate (length (filter sendThrows cs)) err\<rparr>"
proof (induction cs arbitrary: st)
  case Nil
  then show ?case by simp
next
  case (Cons c cs)
  have "foldl (trySend err m) st (c # cs) = foldl (trySend err m) (trySend err m st c) cs"
    by simp
  also have "\<dots> = (trySend err m st c)
      \<lparr>sent := sent (trySend err m st c)
                 @ map (\<lambda>c. (cid c, m)) (filter (\<lambda>c. \<not> sendThrows c) cs),
       logged := logged (trySend err m st c)
                 @ replicate (length (filter sendThrows cs)) err\<rparr>"
    by (rule Cons.IH)
  also have "\<dots> = st
      \<lparr>sent := sent st @ map (\<lambda>c. (cid c, m)) (filter (\<lambda>c. \<not> sendThrows c) (c # cs)),
       logged := logged st @ replicate (length (filter sendThrows (c # cs))) err\<rparr>"
    by (cases "sendThrows c") (simp_all add: trySend_eq replicate_app_Cons_same)
  finally show ?case .
qed

lemma broadcastLiveUpdate_eq:
  "broadcastLiveUpdate now symbol upd st =
     (if symbolClients symbol st = [] then st
      else st\<lparr>sent := sent st @ map (\<lambda>c. (cid c, MDepthUpdate symbol upd now))
                                    (filter (\<lambda>c. \<not> sendThrows c) (symbolClients symbol st)),
              logged := logged st @ replicate (length (filter sendThrows (symbolClients symbol st)))
                                              (ClientSendError symbol),
              updateCounter := (updateCounter st)(symbol := updateCounter st symbol + 1)\<rparr>)"
  by (simp add: broadcastLiveUpdate_def Let_def foldl_trySend)

lemma broadcastResync_eq:
  "broadcastResync now symbol st =
     st\<lparr>sent := sent st @ map (\<lambda>c. (cid c, MResync (orderBooks st symbol) now))
                               (filter (\<lambda>c. \<not> sendThrows c) (symbolClients symbol st)),
        logged := logged st @ replicate (length (filter sendThrows (symbolClients symbol st)))
                                        (ResyncSendError symbol)\<rparr>"
  by (simp add: broadcastResync_def Let_def foldl_trySend)

lemma symbolClients_frame [simp]:
  "symbolClients symbol (st\<lparr>orderBooks := ob\<rparr>) = symbolClients symbol st"
  "symbolClients symbol (st\<lparr>binanceUpdateCounter := bc\<rparr>) = symbolClients symbol st"
  "symbolClients symbol (st\<lparr>logged := lg\<rparr>) = symbolClients symbol st"
  "symbolClients symbol (st\<lparr>requests := rq\<rparr>) = symbolClients symbol st"
  "symbolClients symbol (st\<lparr>timers := tm\<rparr>) = symbolClients symbol st"
  "symbolClients symbol (st\<lparr>sent := sn\<rparr>) = symbolClients symbol st"
  by (simp_all add: symbolClients_def)

text \<open>
  C1. For a depth event on a tracked symbol, the price-level changes are applied to the
  replica exactly when \<open>U \<le> lastUpdateId + 1 \<le> u\<close>; the replica is then the result of
  \<open>applyDeltas\<close> with \<open>lastUpdateId = u\<close>, and otherwise it is the replica as it was.
\<close>

theorem depth_continuity:
  assumes "d_e upd = ''depthUpdate''" and "orderBooks st symbol = Some bk"
  shows "(d_U upd \<le> lastUpdateId bk + 1 \<and> lastUpdateId bk + 1 \<le> d_u upd \<longrightarrow>
            orderBooks (onDepthMessage now symbol upd st) symbol
              = Some ((applyDeltas bk (d_b upd) (d_a upd))\<lparr>lastUpdateId := d_u upd\<rparr>)
          \<and> map_option lastUpdateId (orderBooks (onDepthMessage now symbol upd st) symbol)
              = Some (d_u upd))
       \<and> (\<not> (d_U upd \<le> lastUpdateId bk + 1 \<and> lastUpdateId bk + 1 \<le> d_u upd) \<longrightarrow>
            orderBooks (onDepthMessage now symbol upd st) symbol = Some bk)"
  using assms
  by (simp add: onDepthMessage_def Let_def broadcastLiveUpdate_eq resetOrderBook_def)

text \<open>
  C3. A depth event whose \<open>u\<close> is below \<open>lastUpdateId + 1\<close> changes no replica, sends
  nothing to any client and raises nothing; when it is well formed (\<open>U \<le> u\<close>) the only
  trace it leaves is the count of received events.
\<close>

theorem stale_delta_noop:
  assumes "d_e upd = ''depthUpdate''" and "orderBooks st symbol = Some bk"
    and "d_u upd < lastUpdateId bk + 1"
  shows "orderBooks (onDepthMessage now symbol upd st) = orderBooks st
       \<and> sent (onDepthMessage now symbol upd st) = sent st
       \<and> uncaught (onDepthMessage now symbol upd st) = uncaught st
       \<and> (d_U upd \<le> d_u upd \<longrightarrow>
            onDepthMessage now symbol upd st
              = st\<lparr>binanceUpdateCounter :=
                     (binanceUpdateCounter st)(symbol := binanceUpdateCounter st symbol + 1)\<rparr>)"
  using assms
  by (simp add: onDepthMessage_def Let_def resetOrderBook_def)


lemma toNumber_examples:
  "toNumber ''0.00'' = Some 0" "toNumber ''7'' = Some 7" "toNumber ''2'' = Some 2"
  "toNumber ''3'' = Some 3" "toNumber ''9'' = Some 9"
  by (simp_all add: toNumber_def signed_def unsignedDecimal_def digitVal_def)

lemma parseFloat_examples:
  "parseFloat ''1.00'' = Some 1" "parseFloat ''2.00'' = Some 2" "parseFloat ''3.00'' = Some 3"
  "parseFloat ''5.00'' = Some 5" "parseFloat ''1.0'' = Some 1"
  by (simp_all add: parseFloat_def signed_def decimalPrefix_def unsignedDecimal_def
      digitVal_def)

lemma exampleBook_delta:
  "applyDeltas exampleBook [(''1.00'', ''0.00''), (''5.00'', ''2'')] []
     = \<lparr>lastUpdateId = 100, bids = [(''5.00'', ''2''), (''2.00'', ''1.5'')],
         asks = [(''3.00'', ''2'')]\<rparr>"
  by (simp add: applyDeltas_def applySide_def applyLevel_def exampleBook_def splice1_def
      sortJS_def cmpBids_def cmpAsks_def minusNaN_def toNumber_examples parseFloat_examples)

theorem depth_continuity_witness:
  "d_e (depthEvent 99 101) = ''depthUpdate''
   \<and> orderBooks exampleState ''BTCUSDT'' = Some exampleBook
   \<and> orderBooks (onDepthMessage 7 ''BTCUSDT'' (depthEvent 99 101) exampleState) ''BTCUSDT''
       = Some \<lparr>lastUpdateId = 101, bids = [(''5.00'', ''2''), (''2.00'', ''1.5'')],
               asks = [(''3.00'', ''2'')]\<rparr>
   \<and> orderBooks (onDepthMessage 7 ''BTCUSDT'' (depthEvent 102 103) exampleState) ''BTCUSDT''
       = Some exampleBook"
proof -
  have e: "d_e (depthEvent lo hi) = ''depthUpdate''" for lo hi
    by (simp add: depthEvent_def)
  have b: "orderBooks exampleState ''BTCUSDT'' = Some exampleBook"
    by (simp add: exampleState_def)
  have l: "lastUpdateId exampleBook = 100" by (simp add: exampleBook_def)
  from depth_continuity[OF e b, of 99 101 7] l exampleBook_delta
  have "orderBooks (onDepthMessage 7 ''BTCUSDT'' (depthEvent 99 101) exampleState) ''BTCUSDT''
       = Some \<lparr>lastUpdateId = 101, bids = [(''5.00'', ''2''), (''2.00'', ''1.5'')],
               asks = [(''3.00'', ''2'')]\<rparr>"
    by (simp add: depthEvent_def)
  moreover from depth_continuity[OF e b, of 102 103 7] l
  have "orderBooks (onDepthMessage 7 ''BTCUSDT'' (depthEvent 102 103) exampleState) ''BTCUSDT''
       = Some exampleBook"
    by (simp add: depthEvent_def)
  ultimately show ?thesis using e b by simp
qed

theorem stale_delta_noop_witness:
  "d_u (depthEvent 95 99) < lastUpdateId exampleBook + 1
   \<and> d_U (depthEvent 95 99) \<le> d_u (depthEvent 95 99)
   \<and> orderBooks (onDepthMessage 7 ''BTCUSDT'' (depthEvent 95 99) exampleState)
       = orderBooks exampleState
   \<and> sent (onDepthMessage 7 ''BTCUSDT'' (depthEvent 95 99) exampleState) = []
   \<and> requests (onDepthMessage 7 ''BTCUSDT'' (depthEvent 95 99) exampleState) = []"
proof -
  have e: "d_e (depthEvent 95 99) = ''depthUpdate''"
    by (simp add: depthEvent_def)
  have b: "orderBooks exampleState ''BTCUSDT'' = Some exampleBook"
    by (simp add: exampleState_def)
  have l: "d_u (depthEvent 95 99) < lastUpdateId exampleBook + 1"
    by (simp add: exampleBook_def depthEvent_def)
  have w: "d_U (depthEvent 95 99) \<le> d_u (depthEvent 95 99)"
    by (simp add: depthEvent_def)
  from stale_delta_noop[OF e b l, of 7] w
  have "orderBooks (onDepthMessage 7 ''BTCUSDT'' (depthEvent 95 99) exampleState)
          = orderBooks exampleState"
    and "sent (onDepthMessage 7 ''BTCUSDT'' (depthEvent 95 99) exampleState) = sent exampleState"
    and "onDepthMessage 7 ''BTCUSDT'' (depthEvent 95 99) exampleState
          = exampleState\<lparr>binanceUpdateCounter :=
              (binanceUpdateCounter exampleState)
                (''BTCUSDT'' := binanceUpdateCounter exampleState ''BTCUSDT'' + 1)\<rparr>"
    by simp_all
  then show ?thesis using l w by (simp add: exampleState_def)
qed

text \<open>
  C4, as the code has it. A level is present on a side when an entry has the same price
  string, and the first such entry is the one acted on. On a side whose price strings
  are pairwise different (which every step keeps so), one changed price level
  \<open>(price, qty)\<close> of an applied delta acts as follows. A quantity that reads as 0
  leaves exactly the levels with another price string: the level is removed when
  present, nothing changes when absent, and no entry is produced. A quantity above 0
  appends the level when the price string is absent and overwrites the quantity in
  place when it is present. The side is the one the loop has reached; \<open>applyDeltas\<close>
  folds these steps over the changes and then only reorders the entries.
\<close>

theorem applyDeltas_level_changes:
  "(distinct (map fst side) \<and> toNumber qty = Some 0 \<longrightarrow>
      applyLevel side (price, qty) = filter (\<lambda>l. fst l \<noteq> price) side)
   \<and> (toNumber qty = Some q \<and> 0 < q \<and> price \<notin> fst ` set side \<longrightarrow>
      applyLevel side (price, qty) = side @ [(price, qty)])
   \<and> (distinct (map fst side) \<and> toNumber qty = Some q \<and> 0 < q \<and> price \<in> fst ` set side \<longrightarrow>
      applyLevel side (price, qty)
        = map (\<lambda>l. if fst l = price then (price, qty) else l) side)
   \<and> (distinct (map fst side) \<longrightarrow> distinct (map fst (applyLevel side (price, qty))))
   \<and> mset (bids (applyDeltas bk bs as)) = mset (foldl applyLevel (bids bk) bs)
   \<and> mset (asks (applyDeltas bk bs as)) = mset (foldl applyLevel (asks bk) as)"
proof (intro conjI impI)
  assume "distinct (map fst side) \<and> toNumber qty = Some 0"
  then show "applyLevel side (price, qty) = filter (\<lambda>l. fst l \<noteq> price) side"
    by (simp add: applyLevel_zero)
next
  assume "toNumber qty = Some q \<and> 0 < q \<and> price \<notin> fst ` set side"
  then show "applyLevel side (price, qty) = side @ [(price, qty)]"
    by (simp add: applyLevel_absent)
next
  assume a: "distinct (map fst side) \<and> toNumber qty = Some q \<and> 0 < q \<and> price \<in> fst ` set side"
  then have "toNumber qty \<noteq> Some 0" by auto
  with a show "applyLevel side (price, qty)
        = map (\<lambda>l. if fst l = price then (price, qty) else l) side"
    by (intro applyLevel_overwrite) simp_all
next
  assume "distinct (map fst side)"
  then show "distinct (map fst (applyLevel side (price, qty)))"
    by (rule applyLevel_distinct)
next
  show "mset (bids (applyDeltas bk bs as)) = mset (foldl applyLevel (bids bk) bs)"
    by (simp add: applyDeltas_def applySide_def mset_sortJS)
next
  show "mset (asks (applyDeltas bk bs as)) = mset (foldl applyLevel (asks bk) as)"
    by (simp add: applyDeltas_def applySide_def mset_sortJS)
qed

theorem applyDeltas_level_changes_witness:
  "applyLevel (bids exampleBook) (''1.00'', ''0.00'') = [(''2.00'', ''1.5'')]
   \<and> applyLevel (bids exampleBook) (''5.00'', ''0.00'') = bids exampleBook
   \<and> applyLevel (bids exampleBook) (''5.00'', ''2'')
       = [(''2.00'', ''1.5''), (''1.00'', ''4''), (''5.00'', ''2'')]
   \<and> applyLevel (bids exampleBook) (''2.00'', ''7'') = [(''2.00'', ''7''), (''1.00'', ''4'')]"
proof -
  have d: "distinct (map fst (bids exampleBook))" by (simp add: exampleBook_def)
  have z: "toNumber ''0.00'' = Some 0" by (rule toNumber_examples)
  have "applyLevel (bids exampleBook) (''1.00'', ''0.00'') = [(''2.00'', ''1.5'')]"
    using applyDeltas_level_changes[where side = "bids exampleBook" and qty = "''0.00''"
        and price = "''1.00''"] d z
    by (simp add: exampleBook_def)
  moreover have "applyLevel (bids exampleBook) (''5.00'', ''0.00'') = bids exampleBook"
    using applyDeltas_level_changes[where side = "bids exampleBook" and qty = "''0.00''"
        and price = "''5.00''"] d z
    by (simp add: exampleBook_def)
  moreover have "applyLevel (bids exampleBook) (''5.00'', ''2'')
       = [(''2.00'', ''1.5''), (''1.00'', ''4''), (''5.00'', ''2'')]"
    using applyDeltas_level_changes[where side = "bids exampleBook" and qty = "''2''"
        and price = "''5.00''" and q = 2] toNumber_examples(3)
    by (simp add: exampleBook_def)
  moreover have "applyLevel (bids exampleBook) (''2.00'', ''7'') = [(''2.00'', ''7''), (''1.00'', ''4'')]"
    using applyDeltas_level_changes[where side = "bids exampleBook" and qty = "''7''"
        and price = "''2.00''" and q = 7] d toNumber_examples(2)
    by (simp add: exampleBook_def)
  ultimately show ?thesis by simp
qed




text \<open>
  The claim as stated fails. On a side that holds the price string \<open>1.00\<close> twice (a
  snapshot is stored as it arrives), a zero quantity for \<open>1.00\<close> removes the first
  entry and the level is still there. And the lookup compares strings: for the price
  1.0, present as \<open>1.00\<close>, a zero quantity sent as \<open>1.0\<close> removes nothing, and a
  positive quantity sent as \<open>1.0\<close> adds a second level at that price and leaves the
  quantity of the first.
\<close>

theorem applyLevel_string_lookup_counterexample:
  "applyLevel [(''1.00'', ''4''), (''1.00'', ''7'')] (''1.00'', ''0.00'') = [(''1.00'', ''7'')]
   \<and> parseFloat ''1.0'' = parseFloat ''1.00''
   \<and> applyLevel (bids exampleBook) (''1.0'', ''0.00'') = bids exampleBook
   \<and> applyLevel (bids exampleBook) (''1.0'', ''9'')
       = [(''2.00'', ''1.5''), (''1.00'', ''4''), (''1.0'', ''9'')]"
  by (simp add: applyLevel_def exampleBook_def splice1_def toNumber_examples
      parseFloat_examples)

lemma applyDeltas_prices:
  "bookPrices (applyDeltas bk bs as) \<subseteq> bookPrices bk \<union> (fst ` set bs \<union> fst ` set as)"
proof -
  have "fst ` set (applySide (bids bk) bs) \<subseteq> fst ` set (bids bk) \<union> fst ` set bs"
    by (rule applySide_prices)
  moreover have "fst ` set (applySide (asks bk) as) \<subseteq> fst ` set (asks bk) \<union> fst ` set as"
    by (rule applySide_prices)
  ultimately show ?thesis
    unfolding bookPrices_def applyDeltas_def by (simp add: set_sortJS) blast
qed

lemma applyDeltas_sorted:
  assumes "\<forall>p\<in>P. parseFloat p \<noteq> None" and "inj_on parseFloat P"
    and "bookPrices bk \<subseteq> P" and "fst ` set bs \<union> fst ` set as \<subseteq> P"
    and "sortedBook bk"
  shows "sortedBook (applyDeltas bk bs as)"
proof -
  from assms(5) have d: "distinct (map fst (bids bk))" "distinct (map fst (asks bk))"
    by (simp_all add: sortedBook_def strictlyDescending_distinct strictlyAscending_distinct)
  from assms(3) have bb: "fst ` set (bids bk) \<subseteq> P" "fst ` set (asks bk) \<subseteq> P"
    by (simp_all add: bookPrices_def)
  from assms(4) have dd: "fst ` set bs \<subseteq> P" "fst ` set as \<subseteq> P"
    by simp_all
  have pb: "fst ` set (applySide (bids bk) bs) \<subseteq> P"
    by (rule subset_trans[OF applySide_prices]) (simp add: bb dd)
  have pa: "fst ` set (applySide (asks bk) as) \<subseteq> P"
    by (rule subset_trans[OF applySide_prices]) (simp add: bb dd)
  have "strictlyDescending (sortJS cmpBids (applySide (bids bk) bs))"
    using assms(1,2) pb d(1) by (intro sort_strict_bids applySide_distinct)
  moreover have "strictlyAscending (sortJS cmpAsks (applySide (asks bk) as))"
    using assms(1,2) pa d(2) by (intro sort_strict_asks applySide_distinct)
  ultimately show ?thesis by (simp add: sortedBook_def applyDeltas_def)
qed

lemma snapshotBook_eq: "snapshotBook rdata = rdata"
  by (simp add: snapshotBook_def)

lemma applyOp_invariant:
  assumes "\<forall>p\<in>P. parseFloat p \<noteq> None" and "inj_on parseFloat P"
    and "sortedBook bk \<and> bookPrices bk \<subseteq> P"
    and "opPrices op \<subseteq> P \<and> snapshotsSorted op"
  shows "sortedBook (applyOp bk op) \<and> bookPrices (applyOp bk op) \<subseteq> P"
proof (cases op)
  case (SnapshotOp rdata)
  with assms(4) show ?thesis by (simp add: snapshotBook_eq)
next
  case (DeltaOp bs as)
  with assms(4) have p: "fst ` set bs \<union> fst ` set as \<subseteq> P" by simp
  have "sortedBook (applyDeltas bk bs as)"
    using assms(1,2) _ p
    by (rule applyDeltas_sorted) (simp_all add: assms(3))
  moreover have "bookPrices (applyDeltas bk bs as) \<subseteq> P"
    using applyDeltas_prices[of bk bs as] p assms(3) by blast
  ultimately show ?thesis using DeltaOp by simp
qed

lemma run_invariant:
  assumes "\<forall>p\<in>P. parseFloat p \<noteq> None" and "inj_on parseFloat P"
  shows "sortedBook bk \<and> bookPrices bk \<subseteq> P \<Longrightarrow>
         \<forall>op\<in>set ops. opPrices op \<subseteq> P \<and> snapshotsSorted op \<Longrightarrow>
         sortedBook (foldl applyOp bk ops) \<and> bookPrices (foldl applyOp bk ops) \<subseteq> P"
proof (induction ops arbitrary: bk)
  case Nil
  then show ?case by simp
next
  case (Cons op ops)
  from Cons.prems have "sortedBook (applyOp bk op) \<and> bookPrices (applyOp bk op) \<subseteq> P"
    by (intro applyOp_invariant[OF assms]) simp_all
  moreover from Cons.prems have "\<forall>op\<in>set ops. opPrices op \<subseteq> P \<and> snapshotsSorted op"
    by simp
  ultimately have "sortedBook (foldl applyOp (applyOp bk op) ops)
      \<and> bookPrices (foldl applyOp (applyOp bk op) ops) \<subseteq> P"
    by (rule Cons.IH)
  then show ?case by simp
qed

text \<open>
  C5, as the code has it. \<open>resetOrderBook\<close> stores the sides of a snapshot as they
  arrive, in their order. When every snapshot arrives with bids strictly descending and
  asks strictly ascending, every price string of the snapshots and deltas reads as a
  number, and different price strings read as different numbers, then after any
  sequence of snapshot and delta applications bids are strictly descending and asks
  strictly ascending by price, and no two entries of a side share a price.
\<close>

theorem sort_invariant:
  assumes "\<forall>p\<in>P. parseFloat p \<noteq> None" and "inj_on parseFloat P"
    and "sortedBook bk" and "bookPrices bk \<subseteq> P"
    and "\<forall>op\<in>set ops. opPrices op \<subseteq> P \<and> snapshotsSorted op"
  shows "sortedBook (foldl applyOp bk ops)
       \<and> distinct (map fst (bids (foldl applyOp bk ops)))
       \<and> distinct (map fst (asks (foldl applyOp bk ops)))
       \<and> bids (applyOp bk (SnapshotOp rdata)) = bids rdata
       \<and> asks (applyOp bk (SnapshotOp rdata)) = asks rdata"
proof -
  have "sortedBook (foldl applyOp bk ops) \<and> bookPrices (foldl applyOp bk ops) \<subseteq> P"
    using assms(1,2) _ assms(5) by (rule run_invariant) (simp add: assms(3,4))
  then have s: "sortedBook (foldl applyOp bk ops)" by simp
  then have "distinct (map fst (bids (foldl applyOp bk ops)))"
    and "distinct (map fst (asks (foldl applyOp bk ops)))"
    by (simp_all add: sortedBook_def strictlyDescending_distinct strictlyAscending_distinct)
  with s show ?thesis by (simp add: snapshotBook_def)
qed

lemma exampleBook_sorted: "sortedBook exampleBook"
  by (simp add: sortedBook_def strictlyDescending_def strictlyAscending_def exampleBook_def
      ltNaN_def parseFloat_examples)

theorem sort_invariant_witness:
  "sortedBook (foldl applyOp exampleBook
     [DeltaOp [(''1.00'', ''0.00''), (''5.00'', ''2'')] [], SnapshotOp exampleBook,
      DeltaOp [(''5.00'', ''2'')] [(''1.00'', ''3'')]])
   \<and> bids (foldl applyOp exampleBook
       [DeltaOp [(''1.00'', ''0.00''), (''5.00'', ''2'')] [], SnapshotOp exampleBook,
        DeltaOp [(''5.00'', ''2'')] [(''1.00'', ''3'')]])
      = [(''5.00'', ''2''), (''2.00'', ''1.5''), (''1.00'', ''4'')]"
proof -
  let ?P = "{''1.00'', ''2.00'', ''3.00'', ''5.00''}"
  let ?ops = "[DeltaOp [(''1.00'', ''0.00''), (''5.00'', ''2'')] [], SnapshotOp exampleBook,
      DeltaOp [(''5.00'', ''2'')] [(''1.00'', ''3'')]]"
  have p: "\<forall>p\<in>?P. parseFloat p \<noteq> None" by (simp add: parseFloat_examples)
  have i: "inj_on parseFloat ?P" by (simp add: parseFloat_examples)
  have b: "bookPrices exampleBook \<subseteq> ?P" by (simp add: bookPrices_def exampleBook_def)
  have o: "\<forall>op\<in>set ?ops. opPrices op \<subseteq> ?P \<and> snapshotsSorted op"
    by (simp add: exampleBook_sorted b)
  have "sortedBook (foldl applyOp exampleBook ?ops)"
    using sort_invariant[OF p i exampleBook_sorted b o] by simp
  moreover have "bids (foldl applyOp exampleBook ?ops)
      = [(''5.00'', ''2''), (''2.00'', ''1.5''), (''1.00'', ''4'')]"
    by (simp add: applyDeltas_def applySide_def applyLevel_def exampleBook_def splice1_def
        sortJS_def cmpBids_def cmpAsks_def minusNaN_def toNumber_examples parseFloat_examples
        snapshotBook_def)
  ultimately show ?thesis by simp
qed

text \<open>The claim as stated fails on a snapshot that arrives with its bids ascending: the
  replica holds them in that order.\<close>

theorem snapshot_unsorted_counterexample:
  "\<not> sortedBook (foldl applyOp exampleBook
       [SnapshotOp \<lparr>lastUpdateId = 200, bids = [(''1.00'', ''4''), (''2.00'', ''1.5'')],
                    asks = [(''3.00'', ''2'')]\<rparr>])"
  by (simp add: sortedBook_def strictlyDescending_def strictlyAscending_def snapshotBook_def
      ltNaN_def parseFloat_examples)

text \<open>Two spellings of one number are two levels: the lookup compares the strings.\<close>

lemma applyDeltas_two_spellings:
  "bids (applyDeltas exampleBook [(''1.0'', ''9'')] [])
     = [(''2.00'', ''1.5''), (''1.00'', ''4''), (''1.0'', ''9'')]
   \<and> \<not> sortedBook (applyDeltas exampleBook [(''1.0'', ''9'')] [])"
  by (simp add: sortedBook_def strictlyDescending_def strictlyAscending_def ltNaN_def
      applyDeltas_def applySide_def applyLevel_def exampleBook_def splice1_def
      sortJS_def cmpBids_def cmpAsks_def minusNaN_def parseFloat_examples toNumber_examples)



section \<open>Properties of the service\<close>

lemma gap_delta_effects:
  assumes "d_e upd = ''depthUpdate''" and "orderBooks st symbol = Some bk"
    and "d_U upd > lastUpdateId bk + 1"
  shows "onDepthMessage now symbol upd st =
           st\<lparr>binanceUpdateCounter :=
                 (binanceUpdateCounter st)(symbol := binanceUpdateCounter st symbol + 1),
              logged := logged st @ [OutOfSync symbol (lastUpdateId bk + 1) (d_U upd)],
              requests := requests st @ [(symbol, True)]\<rparr>"
  using assms by (simp add: onDepthMessage_def Let_def resetOrderBook_def)

text \<open>
  The part of C2 that the code has: a depth event with \<open>U > lastUpdateId + 1\<close> leaves
  every replica as it is, logs the gap and starts one snapshot request; when the response
  of that request arrives, the replica is the snapshot and a \<open>resync\<close> message with it
  goes to every open client of the symbol whose socket accepts it.
\<close>

lemma gap_then_first_fetch_succeeds:
  assumes "d_e upd = ''depthUpdate''" and "orderBooks st symbol = Some bk"
    and "d_U upd > lastUpdateId bk + 1"
  shows "orderBooks (onDepthMessage now symbol upd st) = orderBooks st"
    and "sent (onDepthMessage now symbol upd st) = sent st"
    and "logged (onDepthMessage now symbol upd st)
           = logged st @ [OutOfSync symbol (lastUpdateId bk + 1) (d_U upd)]"
    and "requests (onDepthMessage now symbol upd st) = requests st @ [(symbol, True)]"
    and "orderBooks (resetOrderBookDone later symbol True (Some rdata) st') symbol = Some rdata"
    and "sent (resetOrderBookDone later symbol True (Some rdata) st')
           = sent st' @ map (\<lambda>c. (cid c, MResync (Some rdata) later))
                           (filter (\<lambda>c. \<not> sendThrows c) (symbolClients symbol st'))"
  using assms
  by (simp_all add: gap_delta_effects resetOrderBookDone_def Let_def broadcastResync_eq
      snapshotBook_eq)

text \<open>
  C2 at the failing input. The first request fails: a \<open>resync\<close> with the old replica
  (update id 100) is sent at once. The retry succeeds and installs the new replica
  (update id 110), and no \<open>resync\<close> follows: client 2 has received the stale one only.
\<close>

theorem gap_resync_lost_on_retry:
  "orderBooks afterGap ''BTCUSDT'' = Some exampleBook
   \<and> requests afterGap = [(''BTCUSDT'', True)]
   \<and> logged afterGap = [OutOfSync ''BTCUSDT'' 101 105]
   \<and> received 2 afterFailedFetch = [MResync (Some exampleBook) 8]
   \<and> timers afterFailedFetch = [RetryReset ''BTCUSDT'']
   \<and> requests afterRetryTimer = [(''BTCUSDT'', False)]
   \<and> orderBooks afterRetrySuccess ''BTCUSDT'' = Some newerBook
   \<and> received 2 afterRetrySuccess = [MResync (Some exampleBook) 8]
   \<and> requests afterRetrySuccess = [] \<and> timers afterRetrySuccess = []"
  by code_simp

lemma onDepthMessages_gaps:
  assumes "orderBooks st symbol = Some bk"
    and "\<forall>upd\<in>set upds. d_e upd = ''depthUpdate'' \<and> d_U upd > lastUpdateId bk + 1"
  shows "requests (onDepthMessages now symbol upds st)
           = requests st @ replicate (length upds) (symbol, True)
       \<and> orderBooks (onDepthMessages now symbol upds st) = orderBooks st"
  using assms
proof (induction upds arbitrary: st)
  case Nil
  then show ?case by (simp add: onDepthMessages_def)
next
  case (Cons upd upds)
  let ?st1 = "onDepthMessage now symbol upd st"
  from Cons.prems have g: "d_e upd = ''depthUpdate''" "d_U upd > lastUpdateId bk + 1"
    by simp_all
  have r1: "requests ?st1 = requests st @ [(symbol, True)]"
    and o1: "orderBooks ?st1 = orderBooks st"
    by (simp_all add: gap_delta_effects[OF g(1) Cons.prems(1) g(2)])
  from o1 Cons.prems(1) have "orderBooks ?st1 symbol = Some bk" by simp
  moreover from Cons.prems(2)
  have "\<forall>upd\<in>set upds. d_e upd = ''depthUpdate'' \<and> d_U upd > lastUpdateId bk + 1"
    by simp
  ultimately have "requests (onDepthMessages now symbol upds ?st1)
           = requests ?st1 @ replicate (length upds) (symbol, True)
       \<and> orderBooks (onDepthMessages now symbol upds ?st1) = orderBooks ?st1"
    by (rule Cons.IH)
  moreover have "onDepthMessages now symbol (upd # upds) st = onDepthMessages now symbol upds ?st1"
    by (simp add: onDepthMessages_def)
  ultimately show ?case using r1 o1 by (simp add: replicate_app_Cons_same)
qed

text \<open>
  C8, as the code has it. Gap events are not coalesced: every depth event with
  \<open>U > lastUpdateId + 1\<close> starts a snapshot request of its own, whatever requests are
  in flight, and leaves the replica unchanged, so a run of such events adds as many
  requests as it has events.
\<close>

theorem gap_fetches_not_coalesced:
  assumes "orderBooks st symbol = Some bk"
    and "\<forall>upd\<in>set upds. d_e upd = ''depthUpdate'' \<and> d_U upd > lastUpdateId bk + 1"
  shows "requests (onDepthMessages now symbol upds st)
           = requests st @ replicate (length upds) (symbol, True)
       \<and> orderBooks (onDepthMessages now symbol upds st) symbol = Some bk"
  using onDepthMessages_gaps[OF assms] assms(1) by simp

theorem gap_fetches_not_coalesced_witness:
  "requests afterGap = [(''BTCUSDT'', True)]
   \<and> requests (onDepthMessages 8 ''BTCUSDT'' [depthEvent 111 112, depthEvent 113 113] afterGap)
       = [(''BTCUSDT'', True), (''BTCUSDT'', True), (''BTCUSDT'', True)]
   \<and> orderBooks (onDepthMessages 8 ''BTCUSDT'' [depthEvent 111 112, depthEvent 113 113] afterGap)
        ''BTCUSDT'' = Some exampleBook"
proof -
  have b: "orderBooks afterGap ''BTCUSDT'' = Some exampleBook" by code_simp
  have r: "requests afterGap = [(''BTCUSDT'', True)]" by code_simp
  have g: "\<forall>upd\<in>set [depthEvent 111 112, depthEvent 113 113].
             d_e upd = ''depthUpdate'' \<and> d_U upd > lastUpdateId exampleBook + 1"
    by (simp add: depthEvent_def exampleBook_def)
  from gap_fetches_not_coalesced[OF b g, of 8] r show ?thesis by simp
qed

text \<open>The claim as stated fails: with the request of the first gap still in flight, a
  second gap event starts a second request.\<close>

theorem second_gap_second_fetch_counterexample:
  "requests afterGap = [(''BTCUSDT'', True)]
   \<and> requests (onDepthMessage 8 ''BTCUSDT'' (depthEvent 111 112) afterGap)
       = [(''BTCUSDT'', True), (''BTCUSDT'', True)]"
  by code_simp

text \<open>
  C9, as the code has it. A broadcast hands the message to every open client of the
  symbol whose \<open>send\<close> does not raise, in the order of the client set, whether or not the
  \<open>send\<close> of another client raises; nothing escapes the broadcaster. The set of clients
  is left as it was: a client whose \<open>send\<close> raised stays in it, open and tagged.
\<close>

theorem broadcast_isolation:
  "sent (broadcastLiveUpdate now symbol upd st)
     = sent st @ map (\<lambda>c. (cid c, MDepthUpdate symbol upd now))
         (filter (\<lambda>c. symbolTag c = Some symbol \<and> readyState c = OPEN \<and> \<not> sendThrows c)
                 (clients st))
   \<and> uncaught (broadcastLiveUpdate now symbol upd st) = uncaught st
   \<and> clients (broadcastLiveUpdate now symbol upd st) = clients st
   \<and> orderBooks (broadcastLiveUpdate now symbol upd st) = orderBooks st
   \<and> sent (broadcastResync now symbol st)
     = sent st @ map (\<lambda>c. (cid c, MResync (orderBooks st symbol) now))
         (filter (\<lambda>c. symbolTag c = Some symbol \<and> readyState c = OPEN \<and> \<not> sendThrows c)
                 (clients st))
   \<and> uncaught (broadcastResync now symbol st) = uncaught st
   \<and> clients (broadcastResync now symbol st) = clients st"
proof -
  have f: "filter (\<lambda>c. \<not> sendThrows c) (symbolClients symbol st)
         = filter (\<lambda>c. symbolTag c = Some symbol \<and> readyState c = OPEN \<and> \<not> sendThrows c)
                  (clients st)"
    by (simp add: symbolClients_def conj_commute conj_left_commute)
  have "symbolClients symbol st = [] \<Longrightarrow>
        filter (\<lambda>c. \<not> sendThrows c) (symbolClients symbol st) = []"
    by simp
  then show ?thesis
    unfolding f[symmetric] by (auto simp: broadcastLiveUpdate_eq broadcastResync_eq)
qed

theorem broadcast_isolation_witness:
  "sendThrows clientA
   \<and> sent (broadcastLiveUpdate 7 ''BTCUSDT'' (depthEvent 101 101) exampleState)
       = [(2, MDepthUpdate ''BTCUSDT'' (depthEvent 101 101) 7)]
   \<and> uncaught (broadcastLiveUpdate 7 ''BTCUSDT'' (depthEvent 101 101) exampleState) = 0"
  using broadcast_isolation[of 7 "''BTCUSDT''" "depthEvent 101 101" exampleState]
  by (simp add: exampleState_def clientA_def clientB_def)

text \<open>The claim as stated fails: the socket of client 1 raises on \<open>send\<close>, and after
  the broadcast client 1 is still in the set of clients, open.\<close>

theorem failed_client_kept_counterexample:
  "sendThrows clientA \<and> readyState clientA = OPEN
   \<and> clients (broadcastLiveUpdate 7 ''BTCUSDT'' (depthEvent 101 101) exampleState)
       = [clientA, clientB]
   \<and> logged (broadcastLiveUpdate 7 ''BTCUSDT'' (depthEvent 101 101) exampleState)
       = [ClientSendError ''BTCUSDT'']"
  by code_simp



section \<open>Properties of the history and of the backfill\<close>

lemma insertJS_key:
  assumes "\<And>a b. (cmp a b \<le> 0) = (k a \<le> k b)"
  shows "insertJS cmp x ys = insort_key k x ys"
  by (induction ys) (simp_all add: assms)

lemma sortJS_key:
  assumes "\<And>a b. (cmp a b \<le> 0) = (k a \<le> k b)"
  shows "sortJS cmp xs = sort_key k xs"
  unfolding sortJS_def by (induction xs) (simp_all add: insertJS_key[OF assms])

lemma sortJS_newest_first:
  "sorted_wrt (\<ge>) (map timestamp (sortJS cmpNewestFirst xs))"
proof -
  have "sortJS cmpNewestFirst xs = sort_key (\<lambda>x. - timestamp x) xs"
    by (rule sortJS_key) (simp add: cmpNewestFirst_def)
  moreover have "sorted (map (\<lambda>x. - timestamp x) (sort_key (\<lambda>x. - timestamp x) xs))"
    by (rule sorted_sort_key)
  ultimately have "sorted_wrt (\<le>) (map (\<lambda>x. - timestamp x) (sortJS cmpNewestFirst xs))"
    by simp
  then show ?thesis by (simp add: sorted_wrt_map)
qed

lemma slice0_take: "0 \<le> limit \<Longrightarrow> slice0 limit xs = take (nat limit) xs"
  by (simp add: slice0_def)

text \<open>
  C7, as the code has it. For a count \<open>limit \<ge> 0\<close> the history getter returns at most
  \<open>limit\<close> snapshots, newest first (the in-memory history is kept newest first by
  \<open>saveSnapshot\<close>; the caller reverses the result). It is total: with too little
  history it returns what there is, the first \<open>limit\<close> of memory when memory suffices,
  all of memory when it does not and no array can be read from the file.
\<close>

theorem getHistoricalData_newest_first:
  assumes "0 \<le> limit"
    and "h = (case historicalData st symbol of None \<Rightarrow> [] | Some x \<Rightarrow> x)"
    and "sorted_wrt (\<ge>) (map timestamp h)"
  shows "length (getHistoricalData symbol limit st) \<le> nat limit
       \<and> sorted_wrt (\<ge>) (map timestamp (getHistoricalData symbol limit st))
       \<and> (limit \<le> int (length h) \<longrightarrow> getHistoricalData symbol limit st = take (nat limit) h)
       \<and> (int (length h) < limit \<and> (\<forall>d. files st symbol \<noteq> DiskArray d) \<longrightarrow>
            getHistoricalData symbol limit st = h)"
proof -
  let ?pool = "if int (length h) < limit then
                 (case files st symbol of
                    DiskArray diskData \<Rightarrow> sortJS cmpNewestFirst (uniqueByTimestamp (h @ diskData))
                  | _ \<Rightarrow> h)
               else h"
  have g: "getHistoricalData symbol limit st = take (nat limit) ?pool"
    using assms(1) by (simp add: getHistoricalData_def Let_def assms(2)[symmetric] slice0_take)
  have "sorted_wrt (\<ge>) (map timestamp ?pool)"
    using assms(3) by (simp add: sortJS_newest_first split: diskFile.split)
  then have "sorted_wrt (\<ge>) (take (nat limit) (map timestamp ?pool))"
    by (rule sorted_wrt_take)
  then have s: "sorted_wrt (\<ge>) (map timestamp (take (nat limit) ?pool))"
    by (simp only: take_map)
  have l: "length (take (nat limit) ?pool) \<le> nat limit" by simp
  have a: "limit \<le> int (length h) \<Longrightarrow> take (nat limit) ?pool = take (nat limit) h"
    by simp
  have b: "int (length h) < limit \<Longrightarrow> \<forall>d. files st symbol \<noteq> DiskArray d \<Longrightarrow>
           take (nat limit) ?pool = h"
    by (cases "files st symbol") simp_all
  from s l a b show ?thesis unfolding g by blast
qed

theorem getHistoricalData_newest_first_witness:
  "getHistoricalData ''BTCUSDT'' 2 exampleState = take 2 exampleHistory
   \<and> map timestamp (getHistoricalData ''BTCUSDT'' 2 exampleState) = [30, 20]
   \<and> getHistoricalData ''BTCUSDT'' 5 exampleState = exampleHistory
   \<and> length (getHistoricalData ''BTCUSDT'' 5 exampleState) = 3"
proof -
  have h: "exampleHistory
      = (case historicalData exampleState ''BTCUSDT'' of None \<Rightarrow> [] | Some x \<Rightarrow> x)"
    by (simp add: exampleState_def)
  have s: "sorted_wrt (\<ge>) (map timestamp exampleHistory)"
    by (simp add: exampleHistory_def)
  have f: "\<forall>d. files exampleState ''BTCUSDT'' \<noteq> DiskArray d"
    by (simp add: exampleState_def)
  have n: "length exampleHistory = 3" by (simp add: exampleHistory_def)
  have "getHistoricalData ''BTCUSDT'' 2 exampleState = take 2 exampleHistory"
    using getHistoricalData_newest_first[OF _ h s, of 2] n by simp
  moreover have "getHistoricalData ''BTCUSDT'' 5 exampleState = exampleHistory"
    using getHistoricalData_newest_first[OF _ h s, of 5] n f by simp
  ultimately show ?thesis by (simp add: exampleHistory_def)
qed

text \<open>The claim as stated fails: the two snapshots asked for come newest first, with
  timestamps 30 and 20.\<close>

theorem getHistoricalData_order_counterexample:
  "map timestamp (getHistoricalData ''BTCUSDT'' 2 exampleState) = [30, 20]
   \<and> \<not> sorted (map timestamp (getHistoricalData ''BTCUSDT'' 2 exampleState))"
  by code_simp

text \<open>\<open>saveSnapshot\<close> keeps the in-memory history newest first and within 200 entries,
  when the clock does not run backwards.\<close>

lemma saveSnapshot_newest_first:
  assumes "orderBooks st symbol = Some bk" and "historicalData st symbol = Some h"
    and "sorted_wrt (\<ge>) (map timestamp h)" and "\<forall>x\<in>set h. timestamp x \<le> now"
  shows "\<exists>h'. historicalData (fst (saveSnapshot now symbol st)) symbol = Some h'
            \<and> sorted_wrt (\<ge>) (map timestamp h') \<and> length h' \<le> 200
            \<and> (\<forall>x\<in>set h'. timestamp x \<le> now)"
proof -
  let ?x = "\<lparr>timestamp = now, h_lastUpdateId = lastUpdateId bk,
              h_bids = take 20 (bids bk), h_asks = take 20 (asks bk)\<rparr>"
  have s: "sorted_wrt (\<ge>) (map timestamp (?x # h))"
    using assms(3,4) by simp
  then have "sorted_wrt (\<ge>) (take 200 (map timestamp (?x # h)))"
    by (rule sorted_wrt_take)
  then have t: "sorted_wrt (\<ge>) (map timestamp (take 200 (?x # h)))"
    by (simp only: take_map)
  have m: "\<forall>y\<in>set (take 200 (?x # h)). timestamp y \<le> now"
    using assms(4) by (auto dest: in_set_takeD)
  show ?thesis
  proof (cases "length (?x # h) > 200")
    case True
    then have "historicalData (fst (saveSnapshot now symbol st)) symbol = Some (take 200 (?x # h))"
      using assms(1,2) by (simp add: saveSnapshot_def Let_def)
    with t m show ?thesis by simp
  next
    case False
    then have "historicalData (fst (saveSnapshot now symbol st)) symbol = Some (?x # h)"
      using assms(1,2) by (simp add: saveSnapshot_def Let_def)
    with s False assms(4) show ?thesis by simp
  qed
qed

































section \<open>Properties of the concentrator\<close>























end
